theory Spec2Isabelle
  imports Main "HOL-Library.Sublist" "HOL-Library.AList" "HOL-Library.Word"
    "HOL-Library.Monad_Syntax"
begin

section \<open>Library functions the package calls\<close>

text \<open>
  The package is two Go files: \<^verbatim>\<open>item.go\<close> (the record codec) and the storage file
  (\<^verbatim>\<open>Storage\<close> with its methods). Both lean on the Go standard library
  (\<^verbatim>\<open>strings\<close>, \<^verbatim>\<open>strconv\<close>, \<^verbatim>\<open>time\<close>) and on the DynamoDB client. This section
  gives the library functions as executable HOL functions; the next ones give the
  backend and then the package itself, function by function.
\<close>

subsection \<open>strings\<close>

text \<open>\<^verbatim>\<open>strings.Split(s, sep)\<close> for a one-byte separator: \<^verbatim>\<open>Split("", "/")\<close> is \<^verbatim>\<open>[""]\<close>.\<close>

fun Split :: "string \<Rightarrow> char \<Rightarrow> string list" where
  "Split [] sep = [[]]"
| "Split (c # cs) sep =
     (if c = sep then [] # Split cs sep
      else (case Split cs sep of p # ps \<Rightarrow> (c # p) # ps | [] \<Rightarrow> [[c]]))"

text \<open>\<^verbatim>\<open>strings.Join(elems, sep)\<close>.\<close>

fun Join :: "string list \<Rightarrow> string \<Rightarrow> string" where
  "Join [] sep = []"
| "Join [p] sep = p"
| "Join (p # q # ps) sep = p @ sep @ Join (q # ps) sep"

text \<open>\<^verbatim>\<open>strings.TrimPrefix(s, p)\<close>: \<open>s\<close> without the leading \<open>p\<close>, or \<open>s\<close> itself.\<close>

definition TrimPrefix :: "string \<Rightarrow> string \<Rightarrow> string" where
  "TrimPrefix s p = (if prefix p s then drop (length p) s else s)"

text \<open>\<^verbatim>\<open>strings.Contains(s, substr)\<close>.\<close>

fun Contains :: "string \<Rightarrow> string \<Rightarrow> bool" where
  "Contains [] substr = (substr = [])"
| "Contains (c # cs) substr = (prefix substr (c # cs) \<or> Contains cs substr)"

subsection \<open>Attribute values and errors\<close>

type_synonym byte = "8 word"

text \<open>
  \<^verbatim>\<open>types.AttributeValue\<close>: the four members the package uses, named after their Go
  types (\<^verbatim>\<open>AttributeValueMemberS\<close> and so on). An attribute map
  (\<^verbatim>\<open>map[string]types.AttributeValue\<close>) is an association list with distinct keys, so
  \<^verbatim>\<open>len(m) == 0\<close> is \<open>m = []\<close> and \<^verbatim>\<open>m["k"]\<close> is \<open>map_of m ''k''\<close>.
\<close>

datatype AttributeValue =
    S string
  | B "byte list"
  | N string
  | BOOL bool

type_synonym attrs = "(string \<times> AttributeValue) list"

text \<open>
  The error values that reach a caller: \<^verbatim>\<open>fs.ErrNotExist\<close>, the two
  \<^verbatim>\<open>errors.New\<close> values of the package, the parse errors of \<^verbatim>\<open>time\<close> and
  \<^verbatim>\<open>strconv\<close>, and what the client returns: the failed condition of a conditional
  put (carrying the record it found), a rejected request, and the cancellation of the
  calling context.
\<close>

datatype error =
    ErrNotExist
  | InvalidAttributeValue
  | InvalidLockedAttribute
  | ParseError
  | ErrSyntax
  | ErrRange
  | ConditionalCheckFailedException attrs
  | ValidationException
  | Canceled

subsection \<open>strconv\<close>

definition digit_char :: "nat \<Rightarrow> char" where
  "digit_char d = char_of (48 + d)"

fun digits :: "nat \<Rightarrow> string" where
  "digits n = (if n < 10 then [digit_char n] else digits (n div 10) @ [digit_char (n mod 10)])"

declare digits.simps [simp del]

definition is_digit :: "char \<Rightarrow> bool" where
  "is_digit c = (48 \<le> (of_char c :: nat) \<and> (of_char c :: nat) \<le> 57)"

text \<open>The value of a string of decimal digits; \<open>None\<close> at the first other byte.\<close>

fun digits_val :: "nat \<Rightarrow> string \<Rightarrow> nat option" where
  "digits_val acc [] = Some acc"
| "digits_val acc (c # cs) =
     (if is_digit c then digits_val (10 * acc + (of_char c - 48)) cs else None)"

text \<open>\<^verbatim>\<open>strconv.FormatInt(i, 10)\<close>.\<close>

definition FormatInt :: "int \<Rightarrow> string" where
  "FormatInt i = (if i < 0 then CHR ''-'' # digits (nat (- i)) else digits (nat i))"

text \<open>
  \<^verbatim>\<open>strconv.ParseInt(s, 10, 64)\<close>: an optional sign, then one decimal digit or more;
  a syntax error on anything else, a range error outside \<^verbatim>\<open>int64\<close>.
\<close>

definition ParseInt :: "string \<Rightarrow> error + int" where
  "ParseInt s =
     (let (neg, ds) =
        (case s of
           [] \<Rightarrow> (False, [])
         | c # cs \<Rightarrow>
             if c = CHR ''-'' then (True, cs)
             else if c = CHR ''+'' then (False, cs)
             else (False, s))
      in if ds = [] then Inl ErrSyntax
         else (case digits_val 0 ds of
                 None \<Rightarrow> Inl ErrSyntax
               | Some n \<Rightarrow>
                   (let i = (if neg then - int n else int n)
                    in if - (2 ^ 63) \<le> i \<and> i < 2 ^ 63 then Inr i else Inl ErrRange)))"

subsection \<open>time\<close>

text \<open>
  A \<^verbatim>\<open>time.Time\<close> is taken as an instant: nanoseconds since the Unix epoch, in the UTC
  location (the process's local zone is taken to be UTC, so \<^verbatim>\<open>time.Now()\<close> carries
  offset zero). A \<^verbatim>\<open>time.Duration\<close> is a number of nanoseconds.
\<close>

type_synonym Time = int
type_synonym Duration = int

definition Second :: Duration where
  "Second = 1000000000"

definition Minute :: Duration where
  "Minute = 60 * Second"

text \<open>The zero \<^verbatim>\<open>Time\<close> is January 1, year 1, 00:00:00 UTC.\<close>

definition IsZero :: "Time \<Rightarrow> bool" where
  "IsZero t = (t = - 62135596800 * Second)"

text \<open>Days since 1970-01-01 of a proleptic Gregorian date, and back.\<close>

definition days_from_civil :: "int \<Rightarrow> int \<Rightarrow> int \<Rightarrow> int" where
  "days_from_civil y m d =
     (let y' = (if m \<le> 2 then y - 1 else y);
          era = y' div 400;
          yoe = y' - era * 400;
          doy = (153 * (if 2 < m then m - 3 else m + 9) + 2) div 5 + d - 1;
          doe = yoe * 365 + yoe div 4 - yoe div 100 + doy
      in era * 146097 + doe - 719468)"

definition civil_from_days :: "int \<Rightarrow> int \<times> int \<times> int" where
  "civil_from_days z =
     (let z' = z + 719468;
          era = z' div 146097;
          doe = z' - era * 146097;
          yoe = (doe - doe div 1460 + doe div 36524 - doe div 146096) div 365;
          doy = doe - (365 * yoe + yoe div 4 - yoe div 100);
          mp = (5 * doy + 2) div 153;
          d = doy - (153 * mp + 2) div 5 + 1;
          m = (if mp < 10 then mp + 3 else mp - 9);
          y = yoe + era * 400
      in (if m \<le> 2 then y + 1 else y, m, d))"

definition is_leap :: "int \<Rightarrow> bool" where
  "is_leap y = (y mod 4 = 0 \<and> (y mod 400 = 0 \<or> y mod 100 \<noteq> 0))"

definition days_in :: "int \<Rightarrow> int \<Rightarrow> int" where
  "days_in y m =
     (if m = 2 then (if is_leap y then 29 else 28)
      else if m = 4 \<or> m = 6 \<or> m = 9 \<or> m = 11 then 30
      else 31)"

text \<open>A number in decimal, zero-padded to a width.\<close>

definition pad :: "nat \<Rightarrow> int \<Rightarrow> string" where
  "pad w n =
     (if n < 0 then CHR ''-'' # replicate (w - length (digits (nat (- n)))) CHR ''0'' @ digits (nat (- n))
      else replicate (w - length (digits (nat n))) CHR ''0'' @ digits (nat n))"

text \<open>
  \<^verbatim>\<open>t.Format(time.RFC3339)\<close>, layout \<^verbatim>\<open>2006-01-02T15:04:05Z07:00\<close>: the date and the
  time of day to the second, then \<^verbatim>\<open>Z\<close> for offset zero. The nanoseconds are not
  printed.
\<close>

definition Format :: "Time \<Rightarrow> string" where
  "Format t =
     (let secs = t div Second;
          sod = secs mod 86400;
          (y, m, d) = civil_from_days (secs div 86400)
      in pad 4 y @ ''-'' @ pad 2 m @ ''-'' @ pad 2 d @ ''T''
         @ pad 2 (sod div 3600) @ '':'' @ pad 2 (sod mod 3600 div 60) @ '':''
         @ pad 2 (sod mod 60) @ ''Z'')"

text \<open>
  \<^verbatim>\<open>time.Parse(time.RFC3339, s)\<close> reads the text from left to right with the helpers
  of the \<^verbatim>\<open>time\<close> package. \<^verbatim>\<open>getnum(s, fixed)\<close> reads one or two digits, and demands
  two when \<open>fixed\<close>; \<open>skip\<close> reads a literal byte of the layout.
\<close>

definition isDigit :: "string \<Rightarrow> nat \<Rightarrow> bool" where
  "isDigit s i = (i < length s \<and> is_digit (s ! i))"

definition digit_of :: "char \<Rightarrow> nat" where
  "digit_of c = of_char c - 48"

definition getnum :: "string \<Rightarrow> bool \<Rightarrow> (nat \<times> string) option" where
  "getnum s fixed =
     (if isDigit s 0 then
        (if isDigit s 1 then Some (digit_of (s ! 0) * 10 + digit_of (s ! 1), drop 2 s)
         else if fixed then None
         else Some (digit_of (s ! 0), drop 1 s))
      else None)"

definition skip :: "string \<Rightarrow> char \<Rightarrow> string option" where
  "skip s c = (case s of [] \<Rightarrow> None | x # xs \<Rightarrow> if x = c then Some xs else None)"

text \<open>The year of the layout \<^verbatim>\<open>2006\<close>: four digits.\<close>

definition parse_year :: "string \<Rightarrow> (nat \<times> string) option" where
  "parse_year s =
     (if 4 \<le> length s then map_option (\<lambda>y. (y, drop 4 s)) (digits_val 0 (take 4 s))
      else None)"

text \<open>
  After the seconds the input may hold a fraction that the layout does not name: a
  point or a comma and digits, of which the first nine count as nanoseconds.
\<close>

definition commaOrPeriod :: "char \<Rightarrow> bool" where
  "commaOrPeriod c = (c = CHR ''.'' \<or> c = CHR '','')"

definition parse_fraction :: "string \<Rightarrow> (nat \<times> string) option" where
  "parse_fraction s =
     (if 2 \<le> length s \<and> commaOrPeriod (s ! 0) \<and> isDigit s 1
      then map_option (\<lambda>ns. (ns, dropWhile is_digit (drop 1 s)))
             (digits_val 0 (take 9 (takeWhile is_digit (drop 1 s) @ replicate 9 CHR ''0'')))
      else Some (0, s))"

text \<open>
  The zone of the layout \<^verbatim>\<open>Z07:00\<close>: \<^verbatim>\<open>Z\<close>, or a sign, two digits of hours, a colon
  and two digits of minutes. Offsets of 24 hours and of 60 minutes are let through
  ("some people do write" them, says the source of the package). The result is the
  offset in seconds east of UTC.
\<close>

definition parse_zone :: "string \<Rightarrow> (int \<times> string) option" where
  "parse_zone s =
     (case s of
        [] \<Rightarrow> None
      | c # cs \<Rightarrow>
          if c = CHR ''Z'' then Some (0, cs)
          else if 6 \<le> length s \<and> s ! 3 = CHR '':'' \<and> (c = CHR ''+'' \<or> c = CHR ''-'')
          then (case (getnum (take 2 (drop 1 s)) True, getnum (take 2 (drop 4 s)) True) of
                  (Some (hr, r1), Some (mm, r2)) \<Rightarrow>
                    if hr \<le> 24 \<and> mm \<le> 60
                    then Some ((if c = CHR ''-'' then - 1 else 1) * ((int hr * 60 + int mm) * 60),
                               drop 6 s)
                    else None
                | _ \<Rightarrow> None)
          else None)"

text \<open>
  The fields in the order of the layout \<^verbatim>\<open>2006-01-02T15:04:05Z07:00\<close>: month, day,
  minute and second have two digits, the hour one or two; every field is in its
  range, the day in the range of its month; nothing follows the zone. The result is
  the instant.
\<close>

definition parse_rfc3339 :: "string \<Rightarrow> Time option" where
  "parse_rfc3339 s =
     do {
       (y, s1) \<leftarrow> parse_year s;
       s2 \<leftarrow> skip s1 CHR ''-'';
       (m, s3) \<leftarrow> getnum s2 True;
       s4 \<leftarrow> skip s3 CHR ''-'';
       (d, s5) \<leftarrow> getnum s4 True;
       s6 \<leftarrow> skip s5 CHR ''T'';
       (hh, s7) \<leftarrow> getnum s6 False;
       s8 \<leftarrow> skip s7 CHR '':'';
       (mm, s9) \<leftarrow> getnum s8 True;
       s10 \<leftarrow> skip s9 CHR '':'';
       (ss, s11) \<leftarrow> getnum s10 True;
       (ns, s12) \<leftarrow> parse_fraction s11;
       (off, s13) \<leftarrow> parse_zone s12;
       if s13 = [] \<and> 1 \<le> m \<and> m \<le> 12 \<and> 1 \<le> d \<and> int d \<le> days_in (int y) (int m)
          \<and> hh < 24 \<and> mm < 60 \<and> ss < 60
       then Some ((days_from_civil (int y) (int m) (int d) * 86400
                   + int hh * 3600 + int mm * 60 + int ss - off) * Second + int ns)
       else None
     }"

text \<open>\<^verbatim>\<open>time.Parse(time.RFC3339, s)\<close>: the instant, or a \<^verbatim>\<open>*time.ParseError\<close>.\<close>

definition Parse :: "string \<Rightarrow> error + Time" where
  "Parse s = (case parse_rfc3339 s of None \<Rightarrow> Inl ParseError | Some t \<Rightarrow> Inr t)"

section \<open>The record codec (item.go)\<close>

record Item =
  Key :: string
  Contents :: "byte list"
  Modified :: Time
  Size :: int
  IsTerminal :: bool

text \<open>
  \<^verbatim>\<open>func (i *Item) Item() map[string]types.AttributeValue\<close>: the key always, each other
  field only when it is not its zero value.
\<close>

definition Item_Item :: "Item \<Rightarrow> attrs" where
  "Item_Item i =
     [(''Key'', S (Key i))]
     @ (if 0 < length (Contents i) then [(''Contents'', B (Contents i))] else [])
     @ (if IsZero (Modified i) then [] else [(''Modified'', S (Format (Modified i)))])
     @ (if 0 < Size i then [(''Size'', N (FormatInt (Size i)))] else [])
     @ (if IsTerminal i then [(''IsTerminal'', BOOL (IsTerminal i))] else [])"

text \<open>
  \<^verbatim>\<open>func (i *Item) Load(item map[string]types.AttributeValue) error\<close>: the five
  attributes in the order of the source, each with its type assertion; a failed
  assertion (the attribute is absent or of another member type) is
  \<^verbatim>\<open>errors.New("invalid attribute value")\<close>. The receiver starts as the zero
  \<^verbatim>\<open>Item\<close>; the model returns the filled record or the error.
\<close>

definition Item_Load :: "attrs \<Rightarrow> error + Item" where
  "Item_Load item =
     (case map_of item ''Key'' of
        Some (S k) \<Rightarrow>
          (case map_of item ''Contents'' of
             Some (B c) \<Rightarrow>
               (case map_of item ''Modified'' of
                  Some (S m) \<Rightarrow>
                    (case Parse m of
                       Inl e \<Rightarrow> Inl e
                     | Inr t \<Rightarrow>
                         (case map_of item ''Size'' of
                            Some (N n) \<Rightarrow>
                              (case ParseInt n of
                                 Inl e \<Rightarrow> Inl e
                               | Inr sz \<Rightarrow>
                                   (case map_of item ''IsTerminal'' of
                                      Some (BOOL b) \<Rightarrow>
                                        Inr \<lparr>Key = k, Contents = c, Modified = t,
                                             Size = sz, IsTerminal = b\<rparr>
                                    | _ \<Rightarrow> Inl InvalidAttributeValue))
                          | _ \<Rightarrow> Inl InvalidAttributeValue))
                | _ \<Rightarrow> Inl InvalidAttributeValue)
           | _ \<Rightarrow> Inl InvalidAttributeValue)
      | _ \<Rightarrow> Inl InvalidAttributeValue)"

section \<open>The backend\<close>

text \<open>
  The DynamoDB table is an external collaborator; the model keeps what its contract
  gives: a point read, a put (unconditional, or on the condition that no record has
  the key; a failure of the condition reports the record found when the request
  asks for it), a delete that returns the record it removed when the request asks
  for it, and a scan filtered by a key prefix. The table is an
  association list from the value of the \<^verbatim>\<open>Key\<close> attribute to the record; a scan
  yields the records in the order of that list (the order of a real scan is not
  specified). A request whose key is not a string attribute is rejected.

  The world also holds the clock read by \<^verbatim>\<open>time.Now()\<close> and the trace of the effects
  so far (backend calls and sleeps). Backend calls take no time on this clock; only
  \<^verbatim>\<open>time.Sleep\<close> advances it.
\<close>

datatype event =
    GetItemCall
  | PutItemCall
  | DeleteItemCall
  | ScanCall
  | SleepCall Duration

record world =
  table :: "(string \<times> attrs) list"
  clock :: Time
  trace :: "event list"

definition emit :: "event \<Rightarrow> world \<Rightarrow> world" where
  "emit ev w = w\<lparr>trace := trace w @ [ev]\<rparr>"

text \<open>
  A \<^verbatim>\<open>context.Context\<close>: the background context, or one that its owner cancels once
  a given number of effects of the execution have happened. \<open>Err\<close> is \<^verbatim>\<open>ctx.Err()\<close>.
  The package never reads it; the client does, at the start of every call, and
  returns the cancellation without touching the table.
\<close>

datatype Context = Background | WithCancel nat

definition Err :: "Context \<Rightarrow> world \<Rightarrow> error option" where
  "Err ctx w =
     (case ctx of
        Background \<Rightarrow> None
      | WithCancel n \<Rightarrow> if n \<le> length (trace w) then Some Canceled else None)"

definition Now :: "world \<Rightarrow> Time" where
  "Now w = clock w"

text \<open>
  \<^verbatim>\<open>time.Since(t)\<close>: the duration from \<open>t\<close> to now, saturated to the range of
  \<^verbatim>\<open>int64\<close> nanoseconds.
\<close>

definition Since :: "world \<Rightarrow> Time \<Rightarrow> Duration" where
  "Since w t = max (- (2 ^ 63)) (min (2 ^ 63 - 1) (Now w - t))"

definition Sleep :: "Duration \<Rightarrow> world \<Rightarrow> world" where
  "Sleep d w = emit (SleepCall d) (w\<lparr>clock := clock w + d\<rparr>)"

text \<open>\<^verbatim>\<open>GetItem\<close> (consistent read): the record, or the empty map when there is none.\<close>

definition GetItem :: "Context \<Rightarrow> string \<Rightarrow> world \<Rightarrow> (error + attrs) \<times> world" where
  "GetItem ctx k w =
     (case Err ctx w of
        Some e \<Rightarrow> (Inl e, emit GetItemCall w)
      | None \<Rightarrow>
          (Inr (case map_of (table w) k of None \<Rightarrow> [] | Some it \<Rightarrow> it), emit GetItemCall w))"

text \<open>
  \<^verbatim>\<open>PutItem\<close>; \<open>cond\<close> says whether the input carries the condition
  \<^verbatim>\<open>attribute_not_exists(#key)\<close>, and \<open>all_old\<close> whether it asks for
  \<^verbatim>\<open>ReturnValuesOnConditionCheckFailure: ALL_OLD\<close>. When the condition fails, the
  \<^verbatim>\<open>Item\<close> of the exception holds the record found only if the input asked for it;
  otherwise it is empty.
\<close>

definition PutItem ::
  "Context \<Rightarrow> attrs \<Rightarrow> bool \<Rightarrow> bool \<Rightarrow> world \<Rightarrow> error option \<times> world" where
  "PutItem ctx item cond all_old w =
     (case Err ctx w of
        Some e \<Rightarrow> (Some e, emit PutItemCall w)
      | None \<Rightarrow>
          (case map_of item ''Key'' of
             Some (S k) \<Rightarrow>
               (case (if cond then map_of (table w) k else None) of
                  Some old \<Rightarrow>
                    (Some (ConditionalCheckFailedException (if all_old then old else [])),
                     emit PutItemCall w)
                | None \<Rightarrow> (None, emit PutItemCall (w\<lparr>table := AList.update k item (table w)\<rparr>)))
           | _ \<Rightarrow> (Some ValidationException, emit PutItemCall w)))"

text \<open>
  \<^verbatim>\<open>DeleteItem\<close>; \<open>all_old\<close> says whether the input asks for
  \<^verbatim>\<open>ReturnValues: ALL_OLD\<close>. Deleting an absent key succeeds and returns no
  attributes.
\<close>

definition DeleteItem ::
  "Context \<Rightarrow> AttributeValue option \<Rightarrow> bool \<Rightarrow> world \<Rightarrow> (error + attrs) \<times> world" where
  "DeleteItem ctx k all_old w =
     (case Err ctx w of
        Some e \<Rightarrow> (Inl e, emit DeleteItemCall w)
      | None \<Rightarrow>
          (case k of
             Some (S key) \<Rightarrow>
               (Inr (if all_old then (case map_of (table w) key of None \<Rightarrow> [] | Some it \<Rightarrow> it)
                     else []),
                emit DeleteItemCall (w\<lparr>table := AList.delete key (table w)\<rparr>))
           | _ \<Rightarrow> (Inl ValidationException, emit DeleteItemCall w)))"

text \<open>\<^verbatim>\<open>Scan\<close> with the filter \<^verbatim>\<open>begins_with(#key, :key)\<close>.\<close>

definition Scan :: "Context \<Rightarrow> string \<Rightarrow> world \<Rightarrow> (error + attrs list) \<times> world" where
  "Scan ctx p w =
     (case Err ctx w of
        Some e \<Rightarrow> (Inl e, emit ScanCall w)
      | None \<Rightarrow> (Inr (map snd (filter (\<lambda>r. prefix p (fst r)) (table w))), emit ScanCall w))"

section \<open>The storage\<close>

subsection \<open>Store\<close>

text \<open>
  The loop of \<^verbatim>\<open>Store\<close> over \<^verbatim>\<open>i = 0 .. len(keyParts)-2\<close>: one marker per proper
  prefix of the key, stopping at the first error.
\<close>

fun Store_markers :: "Context \<Rightarrow> string list \<Rightarrow> nat list \<Rightarrow> world \<Rightarrow> error option \<times> world" where
  "Store_markers ctx keyParts [] w = (None, w)"
| "Store_markers ctx keyParts (i # rest) w =
     (case PutItem ctx
             (Item_Item \<lparr>Key = Join (take (i + 1) keyParts) ''/'', Contents = [],
                         Modified = Now w, Size = 0, IsTerminal = False\<rparr>)
             False False w of
        (Some e, w') \<Rightarrow> (Some e, w')
      | (None, w') \<Rightarrow> Store_markers ctx keyParts rest w')"

definition Store :: "Context \<Rightarrow> string \<Rightarrow> byte list \<Rightarrow> world \<Rightarrow> error option \<times> world" where
  "Store ctx key val w =
     (let keyParts = Split key CHR ''/''
      in case Store_markers ctx keyParts [0 ..< length keyParts - 1] w of
           (Some e, w') \<Rightarrow> (Some e, w')
         | (None, w') \<Rightarrow>
             PutItem ctx
               (Item_Item \<lparr>Key = key, Contents = val, Modified = Now w',
                           Size = int (length val), IsTerminal = True\<rparr>)
               False False w')"

subsection \<open>Load, Exists, Stat\<close>

definition Load :: "Context \<Rightarrow> string \<Rightarrow> world \<Rightarrow> (error + byte list) \<times> world" where
  "Load ctx key w =
     (case GetItem ctx key w of
        (Inl e, w') \<Rightarrow> (Inl e, w')
      | (Inr out, w') \<Rightarrow>
          if length out = 0 then (Inl ErrNotExist, w')
          else (case Item_Load out of
                  Inl e \<Rightarrow> (Inl e, w')
                | Inr item \<Rightarrow> (Inr (Contents item), w')))"

definition Exists :: "Context \<Rightarrow> string \<Rightarrow> world \<Rightarrow> bool \<times> world" where
  "Exists ctx key w =
     (case GetItem ctx key w of
        (Inl e, w') \<Rightarrow> (False, w')
      | (Inr out, w') \<Rightarrow> (0 < length out, w'))"

text \<open>\<^verbatim>\<open>certmagic.KeyInfo\<close>.\<close>

record KeyInfo =
  info_Key :: string
  info_Modified :: Time
  info_IsTerminal :: bool
  info_Size :: int

definition Stat :: "Context \<Rightarrow> string \<Rightarrow> world \<Rightarrow> (error + KeyInfo) \<times> world" where
  "Stat ctx key w =
     (case GetItem ctx key w of
        (Inl e, w') \<Rightarrow> (Inl e, w')
      | (Inr out, w') \<Rightarrow>
          if length out = 0 then (Inl ErrNotExist, w')
          else (case Item_Load out of
                  Inl e \<Rightarrow> (Inl e, w')
                | Inr item \<Rightarrow>
                    (Inr \<lparr>info_Key = Key item, info_Modified = Modified item,
                          info_IsTerminal = IsTerminal item, info_Size = Size item\<rparr>, w')))"

subsection \<open>Delete\<close>

text \<open>The sweep of \<^verbatim>\<open>Delete\<close> over the scanned records, stopping at the first error.\<close>

fun Delete_sweep :: "Context \<Rightarrow> attrs list \<Rightarrow> world \<Rightarrow> error option \<times> world" where
  "Delete_sweep ctx [] w = (None, w)"
| "Delete_sweep ctx (i # rest) w =
     (case DeleteItem ctx (map_of i ''Key'') False w of
        (Inl e, w') \<Rightarrow> (Some e, w')
      | (Inr old, w') \<Rightarrow> Delete_sweep ctx rest w')"

definition Delete :: "Context \<Rightarrow> string \<Rightarrow> world \<Rightarrow> error option \<times> world" where
  "Delete ctx key w =
     (case DeleteItem ctx (Some (S key)) True w of
        (Inl e, w1) \<Rightarrow> (Some e, w1)
      | (Inr old, w1) \<Rightarrow>
          if length old = 0 then (None, w1)
          else (case Item_Load old of
                  Inl e \<Rightarrow> (Some e, w1)
                | Inr item \<Rightarrow>
                    if IsTerminal item then (None, w1)
                    else (case Scan ctx (key @ ''/'') w1 of
                            (Inl e, w2) \<Rightarrow> (Some e, w2)
                          | (Inr items, w2) \<Rightarrow>
                              if length items = 0 then (Some ErrNotExist, w2)
                              else Delete_sweep ctx items w2)))"

subsection \<open>List\<close>

text \<open>
  The loop of \<^verbatim>\<open>List\<close> over the scanned records: each is decoded (the first decode
  error ends the call); without \<open>recursive\<close>, a key whose remainder after the path
  and a slash still holds a slash is skipped.
\<close>

fun List_loop :: "string \<Rightarrow> bool \<Rightarrow> attrs list \<Rightarrow> string list \<Rightarrow> error + string list" where
  "List_loop path recursive [] keys = Inr keys"
| "List_loop path recursive (i # rest) keys =
     (case Item_Load i of
        Inl e \<Rightarrow> Inl e
      | Inr item \<Rightarrow>
          if \<not> recursive \<and> Contains (TrimPrefix (Key item) (path @ ''/'')) ''/''
          then List_loop path recursive rest keys
          else List_loop path recursive rest (keys @ [Key item]))"

definition List :: "Context \<Rightarrow> string \<Rightarrow> bool \<Rightarrow> world \<Rightarrow> (error + string list) \<times> world" where
  "List ctx path recursive w =
     (case Scan ctx (path @ ''/'') w of
        (Inl e, w') \<Rightarrow> (Inl e, w')
      | (Inr items, w') \<Rightarrow>
          if length items = 0 then (Inl ErrNotExist, w')
          else (List_loop path recursive items [], w'))"

subsection \<open>Lock and Unlock\<close>

definition deleteLock :: "Context \<Rightarrow> string \<Rightarrow> world \<Rightarrow> error option \<times> world" where
  "deleteLock ctx name w =
     (case DeleteItem ctx (Some (S (''LOCK-'' @ name))) False w of
        (Inl e, w') \<Rightarrow> (Some e, w')
      | (Inr old, w') \<Rightarrow> (None, w'))"

definition Unlock :: "Context \<Rightarrow> string \<Rightarrow> world \<Rightarrow> error option \<times> world" where
  "Unlock ctx name w = deleteLock ctx name w"

text \<open>
  What one pass of the loop of \<^verbatim>\<open>Lock\<close> decides after its conditional put: return
  (with the error, or \<open>None\<close> for \<^verbatim>\<open>nil\<close>), or go round again.
\<close>

datatype pass = Return "error option" | Continue

text \<open>
  The body of the loop, from the conditional put to the \<^verbatim>\<open>return\<close> or \<^verbatim>\<open>continue\<close>
  it reaches. The input of the put carries the condition and no
  \<^verbatim>\<open>ReturnValuesOnConditionCheckFailure\<close>.
\<close>

definition Lock_pass :: "Context \<Rightarrow> string \<Rightarrow> world \<Rightarrow> pass \<times> world" where
  "Lock_pass ctx name w =
     (case PutItem ctx [(''Key'', S (''LOCK-'' @ name)), (''Locked'', S (Format (Now w)))]
             True False w of
        (None, w1) \<Rightarrow> (Return None, w1)
      | (Some err, w1) \<Rightarrow>
          (case err of
             ConditionalCheckFailedException item \<Rightarrow>
               (case map_of item ''Locked'' of
                  Some (S str) \<Rightarrow>
                    (case Parse str of
                       Inl e \<Rightarrow> (Return (Some e), w1)
                     | Inr locked \<Rightarrow>
                         if Minute < Since w1 locked
                         then (case deleteLock ctx name w1 of
                                 (Some e, w2) \<Rightarrow> (Return (Some e), w2)
                               | (None, w2) \<Rightarrow> (Continue, w2))
                         else (Continue, Sleep Second w1))
                | _ \<Rightarrow> (Return (Some InvalidLockedAttribute), w1))
           | _ \<Rightarrow> (Return (Some err), w1)))"

text \<open>
  \<^verbatim>\<open>Lock\<close>: the \<^verbatim>\<open>for\<close> loop. It has no bound in the source, so the model is a partial
  function: \<open>None\<close> stands for a call that never returns.
\<close>

partial_function (option) Lock :: "Context \<Rightarrow> string \<Rightarrow> world \<Rightarrow> (error option \<times> world) option" where
  "Lock ctx name w =
     (case Lock_pass ctx name w of
        (Return r, w') \<Rightarrow> Some (r, w')
      | (Continue, w') \<Rightarrow> Lock ctx name w')"

declare Lock.simps [code]

subsection \<open>The directories of a key\<close>

text \<open>
  The keys under which \<^verbatim>\<open>Store\<close> writes its markers: the proper prefixes of the key,
  component by component (\<^verbatim>\<open>a\<close> and \<^verbatim>\<open>a/b\<close> for \<^verbatim>\<open>a/b/c\<close>). A table is closed
  under directories when it holds a record for every directory of every key it
  holds.
\<close>

definition directories :: "string \<Rightarrow> string list" where
  "directories key =
     map (\<lambda>i. Join (take (i + 1) (Split key CHR ''/'')) ''/'')
       [0 ..< length (Split key CHR ''/'') - 1]"

definition directories_closed :: "(string \<times> attrs) list \<Rightarrow> bool" where
  "directories_closed tbl =
     list_all (\<lambda>k. list_all (\<lambda>d. d \<in> set (map fst tbl)) (directories k)) (map fst tbl)"

subsection \<open>A starting world\<close>

text \<open>The empty table, with the clock at 2026-11-01T00:00:00Z and nothing done yet.\<close>

definition empty_world :: world where
  "empty_world = \<lparr>table = [], clock = 1793491200 * Second, trace = []\<rparr>"

text \<open>
  The same clock over a table whose only record is the lock record of \<open>name\<close>: its
  key, and the given further attributes.
\<close>

definition held_world :: "string \<Rightarrow> attrs \<Rightarrow> world" where
  "held_world name extra =
     \<lparr>table = [(''LOCK-'' @ name, (''Key'', S (''LOCK-'' @ name)) # extra)],
      clock = 1793491200 * Second, trace = []\<rparr>"

section \<open>Facts about the library, the codec and the backend\<close>

lemma Split_nonempty: "Split s sep \<noteq> []"
  by (induction s) (auto split: list.splits)

lemma Split_append: "Split (p @ c # rest) c = Split p c @ Split rest c"
proof (induction p)
  case Nil
  then show ?case by simp
next
  case (Cons a p)
  obtain q qs where "Split p c = q # qs"
    using Split_nonempty [of p c] by (cases "Split p c") auto
  then show ?case using Cons by simp
qed

lemma Join_Cons: "ps \<noteq> [] \<Longrightarrow> Join (p # ps) sep = p @ sep @ Join ps sep"
  by (cases ps) simp_all

lemma Join_append:
  "xs \<noteq> [] \<Longrightarrow> ys \<noteq> [] \<Longrightarrow> Join (xs @ ys) sep = Join xs sep @ sep @ Join ys sep"
proof (induction xs)
  case Nil
  then show ?case by simp
next
  case (Cons x xs)
  show ?case
  proof (cases "xs = []")
    case True
    then show ?thesis using Cons.prems by (simp add: Join_Cons)
  next
    case False
    then show ?thesis using Cons by (simp add: Join_Cons)
  qed
qed

text \<open>Joining what was split gives the string back.\<close>

lemma Join_Split: "Join (Split s c) [c] = s"
proof (induction s)
  case Nil
  then show ?case by simp
next
  case (Cons a s)
  obtain p ps where sp: "Split s c = p # ps"
    using Split_nonempty [of s c] by (cases "Split s c") auto
  show ?case
  proof (cases "a = c")
    case True
    then show ?thesis using Cons sp by (simp add: Join_Cons)
  next
    case False
    show ?thesis
    proof (cases "ps = []")
      case True
      then show ?thesis using Cons sp False by simp
    next
      case False
      then show ?thesis using Cons sp \<open>a \<noteq> c\<close> by (simp add: Join_Cons)
    qed
  qed
qed

text \<open>A directory of a key, a slash and a rest make up the key, and the other way round.\<close>

lemma directory_of_key:
  assumes "i < length (Split key CHR ''/'') - 1"
  shows "\<exists>rest. key = Join (take (i + 1) (Split key CHR ''/'')) ''/'' @ ''/'' @ rest"
proof -
  define ps where "ps = Split key CHR ''/''"
  have "take (i + 1) ps \<noteq> []" "drop (i + 1) ps \<noteq> []"
    using assms by (auto simp: ps_def)
  then have "Join (take (i + 1) ps @ drop (i + 1) ps) ''/''
      = Join (take (i + 1) ps) ''/'' @ ''/'' @ Join (drop (i + 1) ps) ''/''"
    by (rule Join_append)
  moreover have "Join ps ''/'' = key"
    unfolding ps_def using Join_Split [of key "CHR ''/''"] by simp
  ultimately show ?thesis
    unfolding ps_def by (metis append_take_drop_id)
qed

lemma directories_prefix: "d \<in> set (directories k) \<Longrightarrow> prefix (d @ ''/'') k"
proof -
  assume "d \<in> set (directories k)"
  then obtain i where i: "i < length (Split k CHR ''/'') - 1"
    and d: "d = Join (take (i + 1) (Split k CHR ''/'')) ''/''"
    by (auto simp: directories_def)
  obtain rest where "k = d @ ''/'' @ rest"
    using directory_of_key [OF i] d by blast
  then show ?thesis by (metis append.assoc prefixI)
qed

lemma prefix_directories: "prefix (p @ ''/'') k \<Longrightarrow> p \<in> set (directories k)"
proof -
  assume "prefix (p @ ''/'') k"
  then obtain rest where k: "k = p @ CHR ''/'' # rest"
    by (auto simp: prefix_def)
  have s: "Split k CHR ''/'' = Split p CHR ''/'' @ Split rest CHR ''/''"
    unfolding k by (rule Split_append)
  define i where "i = length (Split p CHR ''/'') - 1"
  have lp: "0 < length (Split p CHR ''/'')" and lr: "0 < length (Split rest CHR ''/'')"
    using Split_nonempty [of p] Split_nonempty [of rest] by (simp_all del: Split.simps)
  have "i < length (Split k CHR ''/'') - 1"
    using lp lr unfolding s i_def length_append by linarith
  moreover have "i + 1 = length (Split p CHR ''/'')"
    using lp unfolding i_def by linarith
  then have "take (i + 1) (Split k CHR ''/'') = Split p CHR ''/''"
    unfolding s by simp
  then have "Join (take (i + 1) (Split k CHR ''/'')) ''/'' = p"
    using Join_Split [of p "CHR ''/''"] by simp
  ultimately show ?thesis
    by (force simp: directories_def)
qed

lemma directories_closed_iff:
  "directories_closed tbl =
     (\<forall>k \<in> fst ` set tbl. \<forall>p. prefix (p @ ''/'') k \<longrightarrow> p \<in> fst ` set tbl)"
  unfolding directories_closed_def list_all_iff
  using directories_prefix prefix_directories by (auto 0 3)

text \<open>Decimal numbers: parsing what was formatted gives the number back.\<close>

lemma digit_char_is_digit:
  "d < 10 \<Longrightarrow> is_digit (digit_char d) \<and> of_char (digit_char d) - 48 = d"
  by (simp add: is_digit_def digit_char_def)

lemma digits_val_append:
  "digits_val acc (xs @ ys) =
     (case digits_val acc xs of None \<Rightarrow> None | Some v \<Rightarrow> digits_val v ys)"
  by (induction xs arbitrary: acc) simp_all

lemma digits_val_digits: "digits_val 0 (digits n) = Some n"
proof (induction n rule: digits.induct)
  case (1 n)
  show ?case
  proof (cases "n < 10")
    case True
    then show ?thesis
      by (subst digits.simps) (simp add: digit_char_is_digit)
  next
    case False
    then have "digits_val 0 (digits (n div 10)) = Some (n div 10)"
      using "1.IH" by simp
    then show ?thesis
      using False by (subst digits.simps) (simp add: digits_val_append digit_char_is_digit)
  qed
qed

lemma digits_first: "\<exists>c cs. digits n = c # cs \<and> is_digit c"
proof (induction n rule: digits.induct)
  case (1 n)
  show ?case
  proof (cases "n < 10")
    case True
    then show ?thesis
      by (subst digits.simps) (simp add: digit_char_is_digit)
  next
    case False
    then obtain c cs where "digits (n div 10) = c # cs" "is_digit c"
      using "1.IH" by auto
    then show ?thesis
      using False by (subst digits.simps) simp
  qed
qed

lemma ParseInt_digits: "int n < 2 ^ 63 \<Longrightarrow> ParseInt (digits n) = Inr (int n)"
proof -
  assume r: "int n < 2 ^ 63"
  obtain c cs where d: "digits n = c # cs" and c: "is_digit c"
    using digits_first by blast
  have "c \<noteq> CHR ''-''" "c \<noteq> CHR ''+''"
    using c by (auto simp: is_digit_def)
  moreover have "digits_val 0 (c # cs) = Some n"
    using digits_val_digits [of n] d by simp
  ultimately show ?thesis
    using r unfolding ParseInt_def d by (simp del: digits_val.simps)
qed

lemma ParseInt_FormatInt:
  "- (2 ^ 63) \<le> i \<Longrightarrow> i < 2 ^ 63 \<Longrightarrow> ParseInt (FormatInt i) = Inr i"
proof (cases "i < 0")
  case False
  assume "i < 2 ^ 63"
  with False show ?thesis
    using ParseInt_digits [of "nat i"] by (simp add: FormatInt_def)
next
  case True
  assume l: "- (2 ^ 63) \<le> i"
  obtain c cs where d: "digits (nat (- i)) = c # cs"
    using digits_first by blast
  have "digits_val 0 (digits (nat (- i))) = Some (nat (- i))"
    by (rule digits_val_digits)
  then show ?thesis
    using True l d unfolding ParseInt_def FormatInt_def by (simp del: digits_val.simps)
qed

text \<open>The errors of the two parsers, and of the decoder: never the not-found condition.\<close>

lemma Parse_error: "Parse s = Inl e \<Longrightarrow> e = ParseError"
  by (auto simp: Parse_def split: option.splits)

lemma ParseInt_error: "ParseInt s = Inl e \<Longrightarrow> e = ErrSyntax \<or> e = ErrRange"
  by (auto simp: ParseInt_def Let_def split: if_splits option.splits list.splits prod.splits)

lemma Item_Load_error: "Item_Load item = Inl e \<Longrightarrow> e \<noteq> ErrNotExist"
  by (auto simp: Item_Load_def split: option.splits AttributeValue.splits sum.splits
      dest: Parse_error ParseInt_error)

text \<open>Time: staleness without the saturation.\<close>

lemma stale_iff: "(Minute < Since w t) = (Minute < clock w - t)"
  by (auto simp: Since_def Now_def Minute_def Second_def max_def min_def)

lemma Err_Background [simp]: "Err Background w = None"
  by (simp add: Err_def)

lemma table_emit [simp]: "table (emit ev w) = table w"
  by (simp add: emit_def)

lemma clock_emit [simp]: "clock (emit ev w) = clock w"
  by (simp add: emit_def)

lemma trace_emit [simp]: "trace (emit ev w) = trace w @ [ev]"
  by (simp add: emit_def)

text \<open>The decoder asks for \<^verbatim>\<open>Contents\<close> right after the key, whatever else is there.\<close>

lemma Item_Load_without_Contents:
  "map_of item ''Contents'' = None \<Longrightarrow> Item_Load item = Inl InvalidAttributeValue"
  by (simp add: Item_Load_def split: option.splits AttributeValue.splits)

lemma Item_Item_Key [simp]: "map_of (Item_Item i) ''Key'' = Some (S (Key i))"
  by (simp add: Item_Item_def)

lemma Item_Item_Contents [simp]:
  "map_of (Item_Item i) ''Contents'' = (if Contents i = [] then None else Some (B (Contents i)))"
  by (simp add: Item_Item_def)

lemma Item_Item_not_Nil [simp]: "Item_Item i \<noteq> []"
  by (simp add: Item_Item_def)

lemma Item_Load_empty_Contents:
  "Contents i = [] \<Longrightarrow> Item_Load (Item_Item i) = Inl InvalidAttributeValue"
  by (simp add: Item_Load_without_Contents)

lemma PutItem_Background [simp]:
  "PutItem Background (Item_Item i) False all_old w =
     (None, emit PutItemCall (w\<lparr>table := AList.update (Key i) (Item_Item i) (table w)\<rparr>))"
  by (simp add: PutItem_def)

lemma GetItem_Background [simp]:
  "GetItem Background k w =
     (Inr (case map_of (table w) k of None \<Rightarrow> [] | Some it \<Rightarrow> it), emit GetItemCall w)"
  by (simp add: GetItem_def)

lemma DeleteItem_Background [simp]:
  "DeleteItem Background (Some (S key)) all_old w =
     (Inr (if all_old then (case map_of (table w) key of None \<Rightarrow> [] | Some it \<Rightarrow> it) else []),
      emit DeleteItemCall (w\<lparr>table := AList.delete key (table w)\<rparr>))"
  by (simp add: DeleteItem_def)

lemma Scan_Background [simp]:
  "Scan Background p w =
     (Inr (map snd (filter (\<lambda>r. prefix p (fst r)) (table w))), emit ScanCall w)"
  by (simp add: Scan_def)

lemma delete_absent: "map_of al k = None \<Longrightarrow> AList.delete k al = al"
  by (simp add: map_of_eq_None_iff)


lemma Err_table_update [simp]: "Err ctx (w\<lparr>table := t\<rparr>) = Err ctx w"
  by (simp add: Err_def split: Context.splits)

lemma emit_table_update [simp]: "(emit ev w)\<lparr>table := t\<rparr> = emit ev (w\<lparr>table := t\<rparr>)"
  by (simp add: emit_def)


lemma PutItem_conditional:
  "Err ctx w = None \<Longrightarrow>
   PutItem ctx ((''Key'', S k) # rest) True all_old w =
     (case map_of (table w) k of
        Some old \<Rightarrow>
          (Some (ConditionalCheckFailedException (if all_old then old else [])),
           emit PutItemCall w)
      | None \<Rightarrow>
          (None, emit PutItemCall (w\<lparr>table := AList.update k ((''Key'', S k) # rest) (table w)\<rparr>)))"
  by (simp add: PutItem_def split: option.splits)

lemma deleteLock_done:
  "Err ctx w = None \<Longrightarrow>
   deleteLock ctx name w =
     (None, emit DeleteItemCall (w\<lparr>table := AList.delete (''LOCK-'' @ name) (table w)\<rparr>))"
  by (simp add: deleteLock_def DeleteItem_def)

lemma deleteLock_cancelled:
  "Err ctx w = Some e \<Longrightarrow> deleteLock ctx name w = (Some e, emit DeleteItemCall w)"
  by (simp add: deleteLock_def DeleteItem_def)

text \<open>Timestamps, as the clock of the starting world sees them.\<close>

lemma Parse_stale: "Parse ''2026-10-31T23:00:00Z'' = Inr (1793487600 * Second)"
  by code_simp

lemma Parse_fresh: "Parse ''2026-11-01T00:00:00Z'' = Inr (1793491200 * Second)"
  by code_simp

text \<open>What the parser lets through beyond the layout: a short hour, a wide offset.\<close>

lemma Parse_short_hour: "Parse ''2026-11-01T1:04:05Z'' = Inr (1793495045 * Second)"
  by code_simp

lemma Parse_offset_24: "Parse ''2026-10-31T23:00:00+24:00'' = Inr (1793401200 * Second)"
  by code_simp

text \<open>Under the background context every put of \<^verbatim>\<open>Store\<close> succeeds.\<close>

lemma Store_markers_Background:
  "fst (Store_markers Background keyParts idx w) = None
   \<and> clock (snd (Store_markers Background keyParts idx w)) = clock w"
  by (induction idx arbitrary: w) simp_all

lemma Store_Background_table:
  "\<exists>w'. Store Background key val w = (None, w') \<and>
     map_of (table w') key =
       Some (Item_Item \<lparr>Key = key, Contents = val, Modified = clock w,
                        Size = int (length val), IsTerminal = True\<rparr>)"
proof -
  define idx where "idx = [0 ..< length (Split key CHR ''/'') - 1]"
  obtain w1 where m: "Store_markers Background (Split key CHR ''/'') idx w = (None, w1)"
    and c: "clock w1 = clock w"
    using Store_markers_Background [of "Split key CHR ''/''" idx w]
    by (cases "Store_markers Background (Split key CHR ''/'') idx w") simp
  show ?thesis
    unfolding Store_def Let_def idx_def [symmetric]
    by (simp add: m c update_conv' Now_def)
qed

text \<open>The encoding of a full record decodes, up to what the timestamp parses to.\<close>

lemma Item_Load_full_record:
  assumes "Contents i \<noteq> []" and "\<not> IsZero (Modified i)"
    and "Parse (Format (Modified i)) = Inr t"
    and "0 < Size i" and "Size i < 2 ^ 63" and "IsTerminal i"
  shows "Item_Load (Item_Item i) = Inr (i\<lparr>Modified := t\<rparr>)"
proof -
  have "ParseInt (FormatInt (Size i)) = Inr (Size i)"
    using assms(4,5) by (intro ParseInt_FormatInt) simp_all
  then show ?thesis
    using assms by (simp add: Item_Load_def Item_Item_def)
qed

lemma Format_start: "Format (1793491200 * Second) = ''2026-11-01T00:00:00Z''"
  by code_simp

text \<open>The table after the marker loop, and the keys after \<^verbatim>\<open>Store\<close>.\<close>

lemma Store_markers_table:
  "map_of (table (snd (Store_markers Background keyParts idx w))) k =
     (if k \<in> (\<lambda>i. Join (take (i + 1) keyParts) ''/'') ` set idx
      then Some (Item_Item \<lparr>Key = k, Contents = [], Modified = clock w, Size = 0,
                             IsTerminal = False\<rparr>)
      else map_of (table w) k)"
proof (induction idx arbitrary: w)
  case Nil
  then show ?case by simp
next
  case (Cons i idx)
  show ?case
    by (simp add: Cons.IH update_conv' Now_def)
qed

lemma Store_marker_record:
  assumes "d \<in> set (directories key)"
  shows "map_of (table (snd (Store Background key val w))) d
         = Some (Item_Item \<lparr>Key = d, Contents = [], Modified = clock w, Size = 0,
                             IsTerminal = False\<rparr>)"
proof -
  define ps where "ps = Split key CHR ''/''"
  define idx where "idx = [0 ..< length ps - 1]"
  have "prefix (d @ ''/'') key"
    using assms by (rule directories_prefix)
  then have ne: "d \<noteq> key" by (auto simp: prefix_def)
  have "d \<in> (\<lambda>i. Join (take (i + 1) ps) ''/'') ` set idx"
    using assms by (simp add: directories_def ps_def idx_def)
  then have m: "map_of (table (snd (Store_markers Background ps idx w))) d
      = Some (Item_Item \<lparr>Key = d, Contents = [], Modified = clock w, Size = 0,
                          IsTerminal = False\<rparr>)"
    by (simp add: Store_markers_table)
  obtain w1 where w1: "Store_markers Background ps idx w = (None, w1)"
    using Store_markers_Background [of ps idx w]
    by (cases "Store_markers Background ps idx w") simp
  have "map_of (table (snd (Store Background key val w))) d = map_of (table w1) d"
    unfolding Store_def Let_def ps_def [symmetric] idx_def [symmetric]
    using ne by (simp add: w1 update_conv')
  then show ?thesis
    using m w1 by simp
qed

lemma keys_after_Store:
  "fst ` set (table (snd (Store Background key val w)))
     = fst ` set (table w) \<union> set (directories key) \<union> {key}"
proof -
  define ps where "ps = Split key CHR ''/''"
  define idx where "idx = [0 ..< length ps - 1]"
  obtain w1 where w1: "Store_markers Background ps idx w = (None, w1)"
    using Store_markers_Background [of ps idx w]
    by (cases "Store_markers Background ps idx w") simp
  have m: "dom (map_of (table w1)) = dom (map_of (table w)) \<union> set (directories key)"
    using Store_markers_table [of ps idx w] w1
    by (auto simp: dom_def directories_def ps_def idx_def split: if_splits)
  have "dom (map_of (table (snd (Store Background key val w))))
      = insert key (dom (map_of (table w1)))"
    unfolding Store_def Let_def ps_def [symmetric] idx_def [symmetric]
    by (simp add: w1 update_conv')
  then show ?thesis
    using m by (simp add: dom_map_of_conv_image_fst)
qed

text \<open>The loop of \<^verbatim>\<open>List\<close>: its errors are the decoder's, and one bad record is enough.\<close>

lemma List_loop_error: "List_loop path recursive items keys = Inl e \<Longrightarrow> e \<noteq> ErrNotExist"
  by (induction items arbitrary: keys) (auto split: sum.splits if_splits dest: Item_Load_error)

lemma List_loop_undecodable:
  "i \<in> set items \<Longrightarrow> Item_Load i = Inl e \<Longrightarrow>
   \<exists>e'. List_loop path recursive items keys = Inl e'"
  by (induction items arbitrary: keys) (auto split: sum.splits)


lemma Lock_free:
  assumes "Err ctx w = None" and "map_of (table w) (''LOCK-'' @ name) = None"
  shows "Lock ctx name w =
     Some (None, emit PutItemCall
       (w\<lparr>table := AList.update (''LOCK-'' @ name)
              [(''Key'', S (''LOCK-'' @ name)), (''Locked'', S (Format (Now w)))] (table w)\<rparr>))"
proof -
  have "PutItem ctx [(''Key'', S (''LOCK-'' @ name)), (''Locked'', S (Format (Now w)))]
          True False w
      = (None, emit PutItemCall
       (w\<lparr>table := AList.update (''LOCK-'' @ name)
              [(''Key'', S (''LOCK-'' @ name)), (''Locked'', S (Format (Now w)))] (table w)\<rparr>))"
    using assms by (simp add: PutItem_conditional)
  then show ?thesis
    by (subst Lock.simps) (simp add: Lock_pass_def)
qed

text \<open>
  Over a held lock the exception comes back without the record, so the pass finds no
  \<^verbatim>\<open>Locked\<close> attribute in it.
\<close>

lemma Lock_pass_held:
  assumes "Err ctx w = None" and "map_of (table w) (''LOCK-'' @ name) = Some held"
  shows "Lock_pass ctx name w = (Return (Some InvalidLockedAttribute), emit PutItemCall w)"
proof -
  have put: "PutItem ctx [(''Key'', S (''LOCK-'' @ name)), (''Locked'', S (Format (Now w)))]
          True False w
      = (Some (ConditionalCheckFailedException []), emit PutItemCall w)"
    using assms by (simp add: PutItem_conditional)
  show ?thesis
    unfolding Lock_pass_def put by simp
qed

section \<open>The claims\<close>

subsection \<open>C1: round trip of Store and Load\<close>

text \<open>
  Claim C1: for every key and every payload, the empty one included, a successful
  \<^verbatim>\<open>Store(k, v)\<close> followed by \<^verbatim>\<open>Load(k)\<close> returns exactly \<open>v\<close>.

  The code does not do this for the empty payload. \<^verbatim>\<open>Item()\<close> leaves \<^verbatim>\<open>Contents\<close> out
  of the record when the payload is empty, and \<^verbatim>\<open>Item.Load\<close> demands it: for every
  key and every table, \<^verbatim>\<open>Store(k, [])\<close> succeeds and the \<^verbatim>\<open>Load(k)\<close> after it returns
  the error "invalid attribute value" instead of the empty payload.
\<close>

theorem C1_Store_empty_then_Load_fails:
  "fst (Store Background key [] w) = None
   \<and> fst (Load Background key (snd (Store Background key [] w))) = Inl InvalidAttributeValue"
proof -
  obtain w' where s: "Store Background key [] w = (None, w')"
    and t: "map_of (table w') key =
       Some (Item_Item \<lparr>Key = key, Contents = [], Modified = clock w,
                        Size = int (length ([] :: byte list)), IsTerminal = True\<rparr>)"
    using Store_Background_table [of key "[]" w] by blast
  show ?thesis
    by (simp add: s t Load_def Item_Load_empty_Contents)
qed

subsection \<open>C2: the codec on marker records\<close>

text \<open>
  Claim C2: the record codec is lossless; in particular, for a marker record (empty
  contents, zero size, not terminal) decoding the encoded record succeeds and
  yields the record.

  The code does not do this. Whatever the key and the modification time, the
  encoding of a marker record holds no \<^verbatim>\<open>Contents\<close>, and decoding it returns the
  error "invalid attribute value".
\<close>

theorem C2_marker_record_does_not_decode:
  "Item_Load (Item_Item \<lparr>Key = k, Contents = [], Modified = m, Size = 0, IsTerminal = False\<rparr>)
     = Inl InvalidAttributeValue"
  by (simp add: Item_Load_empty_Contents)

subsection \<open>C3: Stat on the directories of a stored key\<close>

text \<open>
  Claim C3: after \<^verbatim>\<open>Store("a/b/c", v)\<close>, \<^verbatim>\<open>Stat("a")\<close> and \<^verbatim>\<open>Stat("a/b")\<close> succeed and
  report a record that is not terminal.

  The code does not do this. \<^verbatim>\<open>Store\<close> writes the two markers, but for every payload
  and every table \<^verbatim>\<open>Stat\<close> on either of them returns the error "invalid attribute
  value": the marker has no \<^verbatim>\<open>Contents\<close> to decode.
\<close>

theorem C3_Stat_on_markers_fails:
  "fst (Stat Background ''a'' (snd (Store Background ''a/b/c'' val w)))
     = Inl InvalidAttributeValue
   \<and> fst (Stat Background ''a/b'' (snd (Store Background ''a/b/c'' val w)))
     = Inl InvalidAttributeValue"
  by (simp add: Store_def Stat_def Let_def upt_rec update_conv' Item_Load_empty_Contents)

subsection \<open>C4: recursive delete\<close>

text \<open>
  Claim C4: after \<^verbatim>\<open>a/b/x\<close> and \<^verbatim>\<open>a/b/y\<close> have been stored, \<^verbatim>\<open>Delete("a")\<close> succeeds
  and removes every record at or below \<^verbatim>\<open>a\<close>, and \<^verbatim>\<open>List("a", true)\<close> then fails
  with the not-found condition.

  The code does not do this. Starting from the empty table, for all payloads:
  \<^verbatim>\<open>Delete("a")\<close> removes the marker \<^verbatim>\<open>a\<close>, fails to decode it and returns the error
  "invalid attribute value" before it scans; \<^verbatim>\<open>a/b\<close>, \<^verbatim>\<open>a/b/x\<close> and \<^verbatim>\<open>a/b/y\<close> stay
  in the table; and the \<^verbatim>\<open>List("a", true)\<close> after it finds them and returns the same
  decode error, not the not-found condition.
\<close>

theorem C4_Delete_directory_fails:
  "fst (Delete Background ''a''
         (snd (Store Background ''a/b/y'' y (snd (Store Background ''a/b/x'' x empty_world)))))
     = Some InvalidAttributeValue
   \<and> map fst (table (snd (Delete Background ''a''
         (snd (Store Background ''a/b/y'' y (snd (Store Background ''a/b/x'' x empty_world)))))))
     = [''a/b'', ''a/b/x'', ''a/b/y'']
   \<and> fst (List Background ''a'' True (snd (Delete Background ''a''
         (snd (Store Background ''a/b/y'' y (snd (Store Background ''a/b/x'' x empty_world)))))))
     = Inl InvalidAttributeValue"
proof -
  have tab:
    "table (snd (Store Background ''a/b/y'' y (snd (Store Background ''a/b/x'' x empty_world)))) =
      [(''a'', Item_Item \<lparr>Key = ''a'', Contents = [], Modified = 1793491200 * Second,
                           Size = 0, IsTerminal = False\<rparr>),
       (''a/b'', Item_Item \<lparr>Key = ''a/b'', Contents = [], Modified = 1793491200 * Second,
                             Size = 0, IsTerminal = False\<rparr>),
       (''a/b/x'', Item_Item \<lparr>Key = ''a/b/x'', Contents = x, Modified = 1793491200 * Second,
                               Size = int (length x), IsTerminal = True\<rparr>),
       (''a/b/y'', Item_Item \<lparr>Key = ''a/b/y'', Contents = y, Modified = 1793491200 * Second,
                               Size = int (length y), IsTerminal = True\<rparr>)]"
    by (simp add: Store_def Let_def upt_rec empty_world_def Now_def)
  show ?thesis
    by (simp add: Delete_def List_def tab Item_Load_empty_Contents)
qed

subsection \<open>C5: listing without recursion\<close>

text \<open>
  Claim C5: after \<^verbatim>\<open>foo/cert/key\<close> and \<^verbatim>\<open>foo/cert/chain\<close> have been stored,
  \<^verbatim>\<open>List("foo", false)\<close> succeeds and returns exactly \<^verbatim>\<open>["foo/cert"]\<close>.

  The code does not do this. Starting from the empty table, for all payloads, the
  scan finds the marker \<^verbatim>\<open>foo/cert\<close>, the loop fails to decode it, and \<^verbatim>\<open>List\<close>
  returns the error "invalid attribute value" and no keys.
\<close>

theorem C5_List_direct_children_fails:
  "fst (List Background ''foo'' False
         (snd (Store Background ''foo/cert/chain'' chain
           (snd (Store Background ''foo/cert/key'' k empty_world)))))
     = Inl InvalidAttributeValue"
  by (simp add: List_def Store_def Let_def upt_rec empty_world_def Now_def Item_Load_empty_Contents)

subsection \<open>C6: keys that were never written\<close>

text \<open>
  Claim C6: for every key that has never been written, each of \<^verbatim>\<open>Load\<close>, \<^verbatim>\<open>Delete\<close>,
  \<^verbatim>\<open>List\<close> and \<^verbatim>\<open>Stat\<close> fails with the not-found condition.

  As stated the claim fails for \<^verbatim>\<open>Delete\<close>: on the empty table \<^verbatim>\<open>Delete("a")\<close>
  returns \<^verbatim>\<open>nil\<close>. The source returns early when the delete reports no previous
  record.
\<close>

theorem C6_Delete_unwritten_key_succeeds:
  "fst (Delete Background ''a'' empty_world) = None"
  by (simp add: Delete_def empty_world_def)

text \<open>
  Claim C6, amended: for every key with no record at it and no record below it (no
  key of the table begins with the key and a slash), \<^verbatim>\<open>Load\<close>, \<^verbatim>\<open>Stat\<close> and \<^verbatim>\<open>List\<close>
  fail with the not-found condition, and \<^verbatim>\<open>Delete\<close> succeeds and leaves the table as
  it was.
\<close>

theorem C6_unwritten_key:
  assumes "map_of (table w) key = None"
    and "\<forall>k \<in> fst ` set (table w). \<not> prefix (key @ ''/'') k"
  shows "fst (Load Background key w) = Inl ErrNotExist
    \<and> fst (Stat Background key w) = Inl ErrNotExist
    \<and> fst (List Background key recursive w) = Inl ErrNotExist
    \<and> fst (Delete Background key w) = None
    \<and> table (snd (Delete Background key w)) = table w"
proof -
  have "filter (\<lambda>r. prefix (key @ ''/'') (fst r)) (table w) = []"
    using assms(2) by (auto simp: filter_empty_conv)
  then show ?thesis
    using assms(1) by (simp add: Load_def Stat_def List_def Delete_def delete_absent)
qed

text \<open>The key \<^verbatim>\<open>a/c\<close> in the table that \<^verbatim>\<open>Store("a/b", [1])\<close> builds from the empty one.\<close>

theorem C6_unwritten_key_witness:
  "fst (Load Background ''a/c'' (snd (Store Background ''a/b'' [1] empty_world))) = Inl ErrNotExist
    \<and> fst (Stat Background ''a/c'' (snd (Store Background ''a/b'' [1] empty_world))) = Inl ErrNotExist
    \<and> fst (List Background ''a/c'' True (snd (Store Background ''a/b'' [1] empty_world)))
        = Inl ErrNotExist
    \<and> fst (Delete Background ''a/c'' (snd (Store Background ''a/b'' [1] empty_world))) = None
    \<and> map fst (table (snd (Delete Background ''a/c''
                               (snd (Store Background ''a/b'' [1] empty_world)))))
        = [''a'', ''a/b'']"
proof -
  define w where "w = snd (Store Background ''a/b'' [1] empty_world)"
  have tab: "table w =
     [(''a'', Item_Item \<lparr>Key = ''a'', Contents = [], Modified = 1793491200 * Second,
                          Size = 0, IsTerminal = False\<rparr>),
      (''a/b'', Item_Item \<lparr>Key = ''a/b'', Contents = [1], Modified = 1793491200 * Second,
                            Size = 1, IsTerminal = True\<rparr>)]"
    by (simp add: w_def Store_def Let_def upt_rec empty_world_def Now_def)
  have h1: "map_of (table w) ''a/c'' = None"
    by (simp add: tab)
  have h2: "\<forall>k \<in> fst ` set (table w). \<not> prefix (''a/c'' @ ''/'') k"
    by (simp add: tab)
  show ?thesis
    using C6_unwritten_key [OF h1 h2, of True] by (simp add: tab w_def [symmetric])
qed

subsection \<open>C7: Lock over a held lock\<close>

text \<open>
  Claim C7: whenever the conditional put of \<^verbatim>\<open>Lock(name)\<close> fails because a lock
  record exists: if the record's \<^verbatim>\<open>Locked\<close> attribute is absent, of another type or
  does not parse, \<^verbatim>\<open>Lock\<close> returns an error without retrying; if the record is older
  than one minute, \<^verbatim>\<open>Lock\<close> deletes it and retries the conditional put at once,
  without a sleep; otherwise \<^verbatim>\<open>Lock\<close> sleeps one second and retries.

  The code does not do this. \<^verbatim>\<open>Lock\<close> reads the record from the \<^verbatim>\<open>Item\<close> of the
  exception, but its request does not ask for it, so the \<^verbatim>\<open>Item\<close> is empty and the
  type assertion on \<^verbatim>\<open>Item["Locked"]\<close> fails. Whenever the context is not cancelled
  and the table holds a record under the lock's key, whatever the record (stale,
  fresh or malformed), \<^verbatim>\<open>Lock\<close> returns the error "invalid Locked attribute" after
  the one put: nothing is parsed, nothing deleted, nothing slept, nothing retried.
\<close>

theorem C7_Lock_on_held_lock_fails:
  assumes "Err ctx w = None"
    and "map_of (table w) (''LOCK-'' @ name) = Some held"
  shows "Lock ctx name w = Some (Some InvalidLockedAttribute, emit PutItemCall w)"
  by (subst Lock.simps) (simp add: Lock_pass_held [OF assms])

text \<open>
  Two lock records for \<^verbatim>\<open>x\<close> at 2026-11-01T00:00:00Z. The first is an hour old: its
  timestamp parses and is stale by the test of the source, so the claim has it
  deleted and the lock taken. The second was taken this second, so the claim has
  \<^verbatim>\<open>Lock\<close> sleep and retry. Either way \<^verbatim>\<open>Lock\<close> returns the error and leaves the
  record in the table.
\<close>

theorem C7_Lock_on_held_lock_fails_witness:
  "Parse ''2026-10-31T23:00:00Z'' = Inr (1793487600 * Second)
   \<and> Minute < Since (held_world ''x'' [(''Locked'', S ''2026-10-31T23:00:00Z'')])
                    (1793487600 * Second)
   \<and> Lock Background ''x'' (held_world ''x'' [(''Locked'', S ''2026-10-31T23:00:00Z'')])
     = Some (Some InvalidLockedAttribute,
         \<lparr>table = [(''LOCK-x'', [(''Key'', S ''LOCK-x''),
                                 (''Locked'', S ''2026-10-31T23:00:00Z'')])],
          clock = 1793491200 * Second, trace = [PutItemCall]\<rparr>)
   \<and> Lock Background ''x'' (held_world ''x'' [(''Locked'', S ''2026-11-01T00:00:00Z'')])
     = Some (Some InvalidLockedAttribute,
         \<lparr>table = [(''LOCK-x'', [(''Key'', S ''LOCK-x''),
                                 (''Locked'', S ''2026-11-01T00:00:00Z'')])],
          clock = 1793491200 * Second, trace = [PutItemCall]\<rparr>)"
proof -
  have h: "\<And>extra. map_of (table (held_world ''x'' extra)) (''LOCK-'' @ ''x'')
      = Some ((''Key'', S ''LOCK-x'') # extra)"
    by (simp add: held_world_def)
  have st: "Minute < Since (held_world ''x'' [(''Locked'', S ''2026-10-31T23:00:00Z'')])
                       (1793487600 * Second)"
    unfolding stale_iff by (simp add: held_world_def Minute_def Second_def)
  note t = C7_Lock_on_held_lock_fails [OF Err_Background h]
  show ?thesis
    using t [of "[(''Locked'', S ''2026-10-31T23:00:00Z'')]"]
      t [of "[(''Locked'', S ''2026-11-01T00:00:00Z'')]"] st
    by (simp add: Parse_stale held_world_def emit_def)
qed

subsection \<open>C8: Lock and the cancellation of its context\<close>



subsection \<open>C9: sparsely encoded records\<close>

text \<open>
  Claim C9: for every key that holds a sparsely encoded record, such as a directory
  marker written by \<^verbatim>\<open>Store\<close>, \<^verbatim>\<open>Exists\<close> returns true (it does not decode the
  record) while \<^verbatim>\<open>Load\<close> and \<^verbatim>\<open>Stat\<close> return a decode error rather than the
  not-found condition.

  In the theorem the record under the key is not empty and has no \<^verbatim>\<open>Contents\<close>
  attribute; that alone makes the decoder fail, whatever else the record lacks.
\<close>

theorem C9_sparse_record:
  assumes "map_of (table w) key = Some item" and "item \<noteq> []"
    and "map_of item ''Contents'' = None"
  shows "fst (Exists Background key w)
    \<and> fst (Load Background key w) = Inl InvalidAttributeValue
    \<and> fst (Stat Background key w) = Inl InvalidAttributeValue"
  using assms by (simp add: Exists_def Load_def Stat_def Item_Load_without_Contents)

text \<open>The marker \<^verbatim>\<open>a\<close> that \<^verbatim>\<open>Store("a/b", [1, 2])\<close> writes into the empty table.\<close>

theorem C9_sparse_record_witness:
  "fst (Exists Background ''a'' (snd (Store Background ''a/b'' [1, 2] empty_world)))
    \<and> fst (Load Background ''a'' (snd (Store Background ''a/b'' [1, 2] empty_world)))
        = Inl InvalidAttributeValue
    \<and> fst (Stat Background ''a'' (snd (Store Background ''a/b'' [1, 2] empty_world)))
        = Inl InvalidAttributeValue"
proof -
  define w where "w = snd (Store Background ''a/b'' [1, 2] empty_world)"
  have tab: "map_of (table w) ''a''
      = Some (Item_Item \<lparr>Key = ''a'', Contents = [], Modified = 1793491200 * Second,
                          Size = 0, IsTerminal = False\<rparr>)"
    by (simp add: w_def Store_def Let_def upt_rec empty_world_def Now_def update_conv')
  show ?thesis
    using C9_sparse_record [OF tab] by (simp add: w_def)
qed

subsection \<open>C10: Unlock without a lock record\<close>

text \<open>
  Claim C10: for every lock name, \<^verbatim>\<open>Unlock(name)\<close> with no lock record at the derived
  key returns success: the unconditional delete of an absent key is a no-op.
  \<^verbatim>\<open>Unlock\<close> never returns the not-found condition and fails only on a backend
  error.

  In the model the one error of the backend call is the cancellation of the
  context, so the error of \<^verbatim>\<open>Unlock\<close> is exactly \<^verbatim>\<open>ctx.Err()\<close> at the call.
\<close>

theorem C10_Unlock_without_lock:
  "(Err ctx w = None \<and> map_of (table w) (''LOCK-'' @ name) = None \<longrightarrow>
      Unlock ctx name w = (None, emit DeleteItemCall w))
   \<and> fst (Unlock ctx name w) = Err ctx w
   \<and> fst (Unlock ctx name w) \<noteq> Some ErrNotExist"
proof -
  have "Err ctx w \<noteq> Some ErrNotExist"
    by (simp add: Err_def split: Context.splits)
  moreover have "fst (Unlock ctx name w) = Err ctx w"
    by (cases "Err ctx w") (simp_all add: Unlock_def deleteLock_done deleteLock_cancelled)
  moreover have "Unlock ctx name w = (None, emit DeleteItemCall w)"
    if "Err ctx w = None" and "map_of (table w) (''LOCK-'' @ name) = None"
    using that by (simp add: Unlock_def deleteLock_done map_of_eq_None_iff)
  ultimately show ?thesis by simp
qed

theorem C10_Unlock_without_lock_witness:
  "Unlock Background ''x'' empty_world = (None, emit DeleteItemCall empty_world)"
  using C10_Unlock_without_lock [of Background empty_world "''x''"] by (simp add: empty_world_def)

section \<open>Further properties\<close>

subsection \<open>Store and Load on a payload that is not empty\<close>

text \<open>
  Away from the empty payload the round trip holds. The payload is not empty, the
  clock is not the zero time, and the timestamp \<^verbatim>\<open>Store\<close> writes parses back (to
  \<open>t\<close>: the text keeps whole seconds only). Then \<^verbatim>\<open>Load\<close> after \<^verbatim>\<open>Store\<close> returns the
  payload, and \<^verbatim>\<open>Stat\<close> reports a terminal record of the payload's length, modified
  at \<open>t\<close>.
\<close>

theorem Store_then_Load_nonempty:
  assumes "val \<noteq> []" and "int (length val) < 2 ^ 63"
    and "\<not> IsZero (Now w)" and "Parse (Format (Now w)) = Inr t"
  shows "fst (Load Background key (snd (Store Background key val w))) = Inr val
    \<and> fst (Stat Background key (snd (Store Background key val w)))
        = Inr \<lparr>info_Key = key, info_Modified = t, info_IsTerminal = True,
                info_Size = int (length val)\<rparr>"
proof -
  define r where "r = \<lparr>Key = key, Contents = val, Modified = clock w,
                        Size = int (length val), IsTerminal = True\<rparr>"
  obtain w' where s: "Store Background key val w = (None, w')"
    and t: "map_of (table w') key = Some (Item_Item r)"
    using Store_Background_table [of key val w] unfolding r_def by blast
  have "Item_Load (Item_Item r) = Inr (r\<lparr>Modified := t\<rparr>)"
    using assms by (intro Item_Load_full_record) (simp_all add: r_def Now_def)
  then show ?thesis
    by (simp add: s t Load_def Stat_def r_def)
qed

theorem Store_then_Load_nonempty_witness:
  "fst (Load Background ''a/b/c'' (snd (Store Background ''a/b/c'' [1, 2, 3] empty_world)))
     = Inr [1, 2, 3]
   \<and> fst (Stat Background ''a/b/c'' (snd (Store Background ''a/b/c'' [1, 2, 3] empty_world)))
     = Inr \<lparr>info_Key = ''a/b/c'', info_Modified = 1793491200 * Second, info_IsTerminal = True,
             info_Size = 3\<rparr>"
proof -
  have z: "\<not> IsZero (Now empty_world)"
    by (simp add: IsZero_def Now_def empty_world_def Second_def)
  have p: "Parse (Format (Now empty_world)) = Inr (1793491200 * Second)"
    by (simp add: Now_def empty_world_def Format_start Parse_fresh)
  show ?thesis
    using Store_then_Load_nonempty
      [of "[1, 2, 3]" empty_world "1793491200 * Second" "''a/b/c''", OF _ _ z p]
    by simp
qed

subsection \<open>Every directory of a stored key\<close>

text \<open>
  What C3 and C9 show for one key holds for all: after \<^verbatim>\<open>Store(key, v)\<close>, for every
  directory of the key, \<^verbatim>\<open>Exists\<close> is true while \<^verbatim>\<open>Stat\<close> and \<^verbatim>\<open>Load\<close> return the
  decode error.
\<close>

theorem Store_marks_every_directory:
  assumes "d \<in> set (directories key)"
  shows "fst (Exists Background d (snd (Store Background key val w)))
    \<and> fst (Stat Background d (snd (Store Background key val w))) = Inl InvalidAttributeValue
    \<and> fst (Load Background d (snd (Store Background key val w))) = Inl InvalidAttributeValue"
  using Store_marker_record [OF assms, of val w]
  by (simp add: Exists_def Stat_def Load_def Item_Load_empty_Contents)

theorem Store_marks_every_directory_witness:
  "fst (Exists Background ''a/b'' (snd (Store Background ''a/b/c'' [7] empty_world)))
    \<and> fst (Stat Background ''a/b'' (snd (Store Background ''a/b/c'' [7] empty_world)))
        = Inl InvalidAttributeValue
    \<and> fst (Load Background ''a/b'' (snd (Store Background ''a/b/c'' [7] empty_world)))
        = Inl InvalidAttributeValue"
proof -
  have "''a/b'' \<in> set (directories ''a/b/c'')"
    by (simp add: directories_def upt_rec)
  then show ?thesis
    by (rule Store_marks_every_directory)
qed

subsection \<open>List over a record that does not decode\<close>

text \<open>
  The failures of C4 and C5 do not depend on the order of the scan: whenever the
  table holds, below the path, a record without \<^verbatim>\<open>Contents\<close>, \<^verbatim>\<open>List\<close> returns an
  error, and the error is not the not-found condition.
\<close>

theorem List_over_undecodable_record:
  assumes "(k, item) \<in> set (table w)" and "prefix (path @ ''/'') k"
    and "map_of item ''Contents'' = None"
  shows "\<exists>e. fst (List Background path recursive w) = Inl e \<and> e \<noteq> ErrNotExist"
proof -
  define items where "items = map snd (filter (\<lambda>r. prefix (path @ ''/'') (fst r)) (table w))"
  have "item \<in> set items"
    using assms(1,2) by (force simp: items_def)
  moreover have "Item_Load item = Inl InvalidAttributeValue"
    using assms(3) by (rule Item_Load_without_Contents)
  ultimately obtain e where e: "List_loop path recursive items [] = Inl e"
    using List_loop_undecodable by blast
  then have "e \<noteq> ErrNotExist" by (rule List_loop_error)
  moreover have "items \<noteq> []" using \<open>item \<in> set items\<close> by auto
  ultimately show ?thesis
    using e by (simp add: List_def items_def [symmetric])
qed

text \<open>A table that lists the files first and the marker last.\<close>

theorem List_over_undecodable_record_witness:
  "\<exists>e. fst (List Background ''foo'' False
           \<lparr>table =
              [(''foo/cert/key'',
                Item_Item \<lparr>Key = ''foo/cert/key'', Contents = [1],
                           Modified = 1793491200 * Second, Size = 1, IsTerminal = True\<rparr>),
               (''foo/cert'',
                Item_Item \<lparr>Key = ''foo/cert'', Contents = [],
                           Modified = 1793491200 * Second, Size = 0, IsTerminal = False\<rparr>)],
            clock = 1793491200 * Second, trace = []\<rparr>) = Inl e
      \<and> e \<noteq> ErrNotExist"
  by (rule List_over_undecodable_record [where k = "''foo/cert''"
        and item = "Item_Item \<lparr>Key = ''foo/cert'', Contents = [],
                           Modified = 1793491200 * Second, Size = 0, IsTerminal = False\<rparr>"])
    simp_all

subsection \<open>Store keeps the table closed under directories\<close>

text \<open>
  The invariant of the data model: if every key of the table has all its directories
  in the table, the same holds after \<^verbatim>\<open>Store\<close>. So in a table built by \<^verbatim>\<open>Store\<close>
  alone a key without a record has no record below it, and the second hypothesis of
  C6 follows from the first: \<^verbatim>\<open>List\<close> on such a key fails with the not-found
  condition.
\<close>

theorem Store_keeps_directories:
  assumes "directories_closed (table w)"
  shows "directories_closed (table (snd (Store Background key val w)))"
  unfolding directories_closed_iff keys_after_Store
proof (intro ballI allI impI)
  fix k p
  assume k: "k \<in> fst ` set (table w) \<union> set (directories key) \<union> {key}"
    and p: "prefix (p @ ''/'') k"
  consider "k \<in> fst ` set (table w)" | "k \<in> set (directories key)" | "k = key"
    using k by blast
  then show "p \<in> fst ` set (table w) \<union> set (directories key) \<union> {key}"
  proof cases
    case 1
    then show ?thesis using assms p by (auto simp: directories_closed_iff)
  next
    case 2
    then have "prefix (k @ ''/'') key" by (rule directories_prefix)
    then have "prefix (p @ ''/'') key"
      using p by (meson prefix_order.order_trans prefix_prefix)
    then show ?thesis using prefix_directories by blast
  next
    case 3
    then show ?thesis using p prefix_directories by blast
  qed
qed

theorem Store_keeps_directories_witness:
  "directories_closed (table (snd (Store Background ''a/b/c'' [7] empty_world)))"
proof -
  have "directories_closed (table empty_world)"
    by (simp add: directories_closed_def empty_world_def)
  then show ?thesis
    by (rule Store_keeps_directories)
qed

theorem List_unwritten_key_in_closed_table:
  assumes "directories_closed (table w)" and "map_of (table w) key = None"
  shows "fst (List Background key recursive w) = Inl ErrNotExist"
proof -
  have "\<forall>k \<in> fst ` set (table w). \<not> prefix (key @ ''/'') k"
    using assms by (auto simp: directories_closed_iff map_of_eq_None_iff)
  then have "filter (\<lambda>r. prefix (key @ ''/'') (fst r)) (table w) = []"
    by (auto simp: filter_empty_conv)
  then show ?thesis
    by (simp add: List_def)
qed

theorem List_unwritten_key_in_closed_table_witness:
  "fst (List Background ''a/c'' True (snd (Store Background ''a/b'' [1] empty_world)))
     = Inl ErrNotExist"
proof -
  have c: "directories_closed (table (snd (Store Background ''a/b'' [1] empty_world)))"
    by (simp add: Store_def Let_def upt_rec empty_world_def directories_closed_def directories_def)
  have n: "map_of (table (snd (Store Background ''a/b'' [1] empty_world))) ''a/c'' = None"
    by (simp add: Store_def Let_def upt_rec empty_world_def)
  show ?thesis
    using c n by (rule List_unwritten_key_in_closed_table)
qed

subsection \<open>Taking a free lock\<close>

text \<open>
  With no record under the lock's key and the context not cancelled, \<^verbatim>\<open>Lock\<close> returns
  \<^verbatim>\<open>nil\<close> after its one put, and the table holds the caller's record with the current
  time.
\<close>

theorem Lock_takes_free_lock:
  assumes "Err ctx w = None" and "map_of (table w) (''LOCK-'' @ name) = None"
  shows "\<exists>w'. Lock ctx name w = Some (None, w')
    \<and> map_of (table w') (''LOCK-'' @ name)
        = Some [(''Key'', S (''LOCK-'' @ name)), (''Locked'', S (Format (Now w)))]
    \<and> trace w' = trace w @ [PutItemCall]"
  using Lock_free [OF assms] by (simp add: update_conv')

theorem Lock_takes_free_lock_witness:
  "\<exists>w'. Lock Background ''x'' empty_world = Some (None, w')
    \<and> map_of (table w') ''LOCK-x''
        = Some [(''Key'', S ''LOCK-x''), (''Locked'', S ''2026-11-01T00:00:00Z'')]
    \<and> trace w' = [PutItemCall]"
proof -
  have n: "map_of (table empty_world) (''LOCK-'' @ ''x'') = None"
    by (simp add: empty_world_def)
  have f: "Format (Now empty_world) = ''2026-11-01T00:00:00Z''"
    by (simp add: Now_def empty_world_def Format_start)
  show ?thesis
    using Lock_takes_free_lock [OF Err_Background n]
    by (simp add: f) (simp add: empty_world_def)
qed

end
